theory Spec2Isabelle
  imports Complex_Main
begin

section \<open>Python values\<close>

text \<open>
  The transcript analyzer works on whatever \<^verbatim>\<open>json.loads\<close> returns, so the model keeps
  the dynamic typing of the source: a parsed value is one of Python's \<^verbatim>\<open>None\<close>,
  \<^verbatim>\<open>bool\<close>, \<^verbatim>\<open>int\<close>, \<^verbatim>\<open>float\<close>, \<^verbatim>\<open>str\<close>, \<^verbatim>\<open>list\<close> or \<^verbatim>\<open>dict\<close>.
  A \<^verbatim>\<open>dict\<close> is an association list in insertion order; \<^verbatim>\<open>json.loads\<close> produces
  distinct keys. Strings are lists of code points, restricted to the range of \<^typ>\<open>char\<close>.
\<close>

datatype pyfloat = Finite rat | PosInf | NegInf | NaN

datatype json =
    JNull
  | JBool bool
  | JInt int
  | JFloat pyfloat
  | JStr string
  | JList "json list"
  | JDict "(string \<times> json) list"

text \<open>The exceptions the modelled code can meet; their messages are not modelled.\<close>

datatype error =
  AttributeError | TypeError | ValueError | OSError | UnicodeDecodeError | RecursionError

subsection \<open>Strings\<close>

text \<open>\<^verbatim>\<open>str.isspace\<close> on the code points below 256.\<close>

definition isspace :: "char \<Rightarrow> bool" where
  "isspace c = (let n = (of_char c :: nat) in
     (9 \<le> n \<and> n \<le> 13) \<or> (28 \<le> n \<and> n \<le> 32) \<or> n = 133 \<or> n = 160)"

definition lstrip :: "string \<Rightarrow> string" where
  "lstrip s = dropWhile isspace s"

definition rstrip :: "string \<Rightarrow> string" where
  "rstrip s = rev (dropWhile isspace (rev s))"

definition strip :: "string \<Rightarrow> string" where
  "strip s = rstrip (lstrip s)"

text \<open>\<^verbatim>\<open>str.lower\<close> on the code points below 256: the ASCII capitals and the Latin-1 capitals.\<close>

definition lower_char :: "char \<Rightarrow> char" where
  "lower_char c = (let n = (of_char c :: nat) in
     if (65 \<le> n \<and> n \<le> 90) \<or> (192 \<le> n \<and> n \<le> 214) \<or> (216 \<le> n \<and> n \<le> 222)
     then char_of (n + 32) else c)"

definition lower :: "string \<Rightarrow> string" where
  "lower s = map lower_char s"

definition startswith :: "string \<Rightarrow> string \<Rightarrow> bool" where
  "startswith s p = (take (length p) s = p)"

text \<open>\<^verbatim>\<open>sub in s\<close> for strings.\<close>

fun contains :: "string \<Rightarrow> string \<Rightarrow> bool" where
  "contains [] sub = (sub = [])"
| "contains (c # cs) sub = (startswith (c # cs) sub \<or> contains cs sub)"

text \<open>\<^verbatim>\<open>s.rfind(c)\<close> for a one-character \<open>c\<close>: the highest index holding \<open>c\<close>, or \<open>-1\<close>.\<close>

fun rfind :: "string \<Rightarrow> char \<Rightarrow> int" where
  "rfind [] c = - 1"
| "rfind (x # xs) c =
     (let r = rfind xs c in if 0 \<le> r then r + 1 else if x = c then 0 else - 1)"

text \<open>\<^verbatim>\<open>sep.join(parts)\<close>.\<close>

fun join :: "string \<Rightarrow> string list \<Rightarrow> string" where
  "join sep [] = []"
| "join sep [p] = p"
| "join sep (p # q # ps) = p @ sep @ join sep (q # ps)"

text \<open>The decimal form of a non-negative integer, as an f-string renders a length.\<close>

definition digit_char :: "nat \<Rightarrow> char" where
  "digit_char d = char_of (48 + d)"

fun show_nat :: "nat \<Rightarrow> string" where
  "show_nat n = (if n < 10 then [digit_char n] else show_nat (n div 10) @ [digit_char (n mod 10)])"

declare show_nat.simps [simp del]

text \<open>\<^verbatim>\<open>s.replace(old, new)\<close> for a one-character \<open>old\<close>.\<close>

definition replace :: "string \<Rightarrow> char \<Rightarrow> string \<Rightarrow> string" where
  "replace s old new = concat (map (\<lambda>c. if c = old then new else [c]) s)"

text \<open>\<^verbatim>\<open>s.split(sep)\<close> for a one-character separator.\<close>

fun split_on :: "char \<Rightarrow> string \<Rightarrow> string list" where
  "split_on sep [] = [[]]"
| "split_on sep (c # cs) =
     (case split_on sep cs of
        [] \<Rightarrow> (if c = sep then [[], []] else [[c]])
      | p # ps \<Rightarrow> (if c = sep then [] # p # ps else (c # p) # ps))"

text \<open>
  \<^verbatim>\<open>Path(p).name\<close> on a POSIX system: the last component of the path, where empty
  components and \<^verbatim>\<open>.\<close> components do not count; the empty string when there is none.
\<close>

definition path_name :: "string \<Rightarrow> string" where
  "path_name p =
     (case filter (\<lambda>c. c \<noteq> [] \<and> c \<noteq> ''.'') (split_on (CHR ''/'') p) of
        [] \<Rightarrow> []
      | cs \<Rightarrow> last cs)"

subsection \<open>Exceptions as values\<close>

definition andthen :: "error + 'a \<Rightarrow> ('a \<Rightarrow> error + 'b) \<Rightarrow> error + 'b" where
  "andthen r f = (case r of Inl e \<Rightarrow> Inl e | Inr v \<Rightarrow> f v)"

text \<open>A \<^verbatim>\<open>for\<close> loop whose body may raise: the first exception ends the loop.\<close>

fun for_each :: "('s \<Rightarrow> 'a \<Rightarrow> error + 's) \<Rightarrow> 'a list \<Rightarrow> 's \<Rightarrow> error + 's" where
  "for_each f [] s = Inr s"
| "for_each f (x # xs) s = andthen (f s x) (for_each f xs)"

text \<open>A list comprehension whose element expression, or whose condition, may raise.\<close>

fun map_result :: "('a \<Rightarrow> error + 'b) \<Rightarrow> 'a list \<Rightarrow> error + 'b list" where
  "map_result f [] = Inr []"
| "map_result f (x # xs) =
     andthen (f x) (\<lambda>y. andthen (map_result f xs) (\<lambda>ys. Inr (y # ys)))"

fun filter_result :: "('a \<Rightarrow> error + bool) \<Rightarrow> 'a list \<Rightarrow> error + 'a list" where
  "filter_result f [] = Inr []"
| "filter_result f (x # xs) =
     andthen (f x) (\<lambda>keep. andthen (filter_result f xs) (\<lambda>ys. Inr (if keep then x # ys else ys)))"

subsection \<open>Dynamic operations on parsed values\<close>

fun is_dict :: "json \<Rightarrow> bool" where
  "is_dict (JDict kvs) = True"
| "is_dict v = False"

fun is_list :: "json \<Rightarrow> bool" where
  "is_list (JList xs) = True"
| "is_list v = False"

text \<open>\<^verbatim>\<open>d.get(k, default)\<close> and \<^verbatim>\<open>k in d\<close> on a value known to be a \<^verbatim>\<open>dict\<close>.\<close>

definition lookup :: "(string \<times> json) list \<Rightarrow> string \<Rightarrow> json \<Rightarrow> json" where
  "lookup kvs k d = (case map_of kvs k of None \<Rightarrow> d | Some v \<Rightarrow> v)"

definition has_key :: "(string \<times> json) list \<Rightarrow> string \<Rightarrow> bool" where
  "has_key kvs k = (map_of kvs k \<noteq> None)"

text \<open>\<^verbatim>\<open>v.get(k, default)\<close> on any value: only a \<^verbatim>\<open>dict\<close> has the attribute.\<close>

fun dict_get :: "json \<Rightarrow> string \<Rightarrow> json \<Rightarrow> error + json" where
  "dict_get (JDict kvs) k d = Inr (lookup kvs k d)"
| "dict_get v k d = Inl AttributeError"

text \<open>Truth value testing.\<close>

fun truthy :: "json \<Rightarrow> bool" where
  "truthy JNull = False"
| "truthy (JBool b) = b"
| "truthy (JInt i) = (i \<noteq> 0)"
| "truthy (JFloat f) = (f \<noteq> Finite 0)"
| "truthy (JStr s) = (s \<noteq> [])"
| "truthy (JList xs) = (xs \<noteq> [])"
| "truthy (JDict kvs) = (kvs \<noteq> [])"

text \<open>
  \<^verbatim>\<open>==\<close> between parsed values. \<^verbatim>\<open>bool\<close>, \<^verbatim>\<open>int\<close> and \<^verbatim>\<open>float\<close> compare by
  numeric value; lists compare element by element and dicts key by key. Inside a
  container an element is first compared by identity, and every \<^verbatim>\<open>NaN\<close> that
  \<^verbatim>\<open>json.loads\<close> returns is the same object, so there \<^verbatim>\<open>NaN\<close> equals itself
  (\<open>py_eq_in\<close>); compared directly, \<^verbatim>\<open>NaN\<close> equals nothing (\<open>py_eq\<close>).
\<close>

fun num_of :: "json \<Rightarrow> pyfloat option" where
  "num_of (JBool b) = Some (Finite (if b then 1 else 0))"
| "num_of (JInt i) = Some (Finite (of_int i))"
| "num_of (JFloat f) = Some f"
| "num_of v = None"

fun py_eq_in :: "json \<Rightarrow> json \<Rightarrow> bool" where
  "py_eq_in (JList xs) (JList ys) = list_all2 py_eq_in xs ys"
| "py_eq_in (JDict a) (JDict b) =
     (length a = length b \<and>
      list_all (\<lambda>(k, v). case map_of b k of None \<Rightarrow> False | Some w \<Rightarrow> py_eq_in v w) a)"
| "py_eq_in (JStr s) (JStr t) = (s = t)"
| "py_eq_in JNull JNull = True"
| "py_eq_in x y = (case (num_of x, num_of y) of (Some m, Some n) \<Rightarrow> m = n | _ \<Rightarrow> False)"

definition py_eq :: "json \<Rightarrow> json \<Rightarrow> bool" where
  "py_eq x y = (x \<noteq> JFloat NaN \<and> y \<noteq> JFloat NaN \<and> py_eq_in x y)"

text \<open>\<^verbatim>\<open>len(v)\<close>.\<close>

fun py_len :: "json \<Rightarrow> error + nat" where
  "py_len (JStr s) = Inr (length s)"
| "py_len (JList xs) = Inr (length xs)"
| "py_len (JDict kvs) = Inr (length kvs)"
| "py_len v = Inl TypeError"

text \<open>
  \<^verbatim>\<open>v in names\<close> for a set of strings: the value is hashed first, and a \<^verbatim>\<open>list\<close> or
  a \<^verbatim>\<open>dict\<close> is unhashable; only an equal string is a member.
\<close>

fun member_of :: "json \<Rightarrow> string list \<Rightarrow> error + bool" where
  "member_of (JStr s) names = Inr (s \<in> set names)"
| "member_of (JList xs) names = Inl TypeError"
| "member_of (JDict kvs) names = Inl TypeError"
| "member_of v names = Inr False"

text \<open>\<^verbatim>\<open>Path(v).name\<close> on any value: only a string is accepted.\<close>

fun path_basename :: "json \<Rightarrow> error + string" where
  "path_basename (JStr p) = Inr (path_name p)"
| "path_basename v = Inl TypeError"

section \<open>Data model\<close>

text \<open>
  The dataclasses of \<^verbatim>\<open>transcript_analyzer.py\<close>. Their annotations are not enforced:
  a field filled from a parsed value holds whatever the transcript held, so such fields
  have type \<^typ>\<open>json\<close>. The three \<^verbatim>\<open>success\<close> fields carry the name of their class.
  \<open>StrOf v\<close> stands for the string \<^verbatim>\<open>str(v)\<close>, whose text is not modelled.
\<close>

datatype text_of = StrOf json

record ToolEvent =
  tool_name :: json
  tool_input :: json
  tool_result :: json
  tool_success :: bool
  timestamp :: string
  error_message :: "text_of option"

record FileOperation =
  operation :: string
  file_path :: json
  file_success :: bool
  content_preview :: "json option"

record BashCommand =
  command :: json
  bash_success :: bool
  stdout :: json
  stderr :: json
  description :: json

text \<open>
  The session identifier is the last \<^verbatim>\<open>sessionId\<close> value seen, a fixed string, or
  \<open>AnalysisError e\<close>, which stands for the string \<^verbatim>\<open>analysis_error: \<close> followed by
  \<^verbatim>\<open>str(e)\<close>.
\<close>

datatype session_ident = SessionId json | AnalysisError error

record SessionAnalysis =
  session_id :: session_ident
  duration_minutes :: pyfloat
  user_messages :: "string list"
  tool_events :: "ToolEvent list"
  file_operations :: "FileOperation list"
  bash_commands :: "BashCommand list"
  errors :: "string list"
  assistant_responses :: "string list"
  key_accomplishments :: "string list"
  current_context :: string

section \<open>Transcript analyzer\<close>

definition file_operation_tools :: "string list" where
  "file_operation_tools = [''Read'', ''Write'', ''Edit'', ''MultiEdit'']"

definition research_tools :: "string list" where
  "research_tools = [''WebFetch'', ''WebSearch'', ''Grep'', ''Glob'', ''LS'']"

subsection \<open>Reading the transcript\<close>

text \<open>
  What the file system and \<^verbatim>\<open>json.loads\<close> give for a transcript path. A line is blank
  after stripping, or \<^verbatim>\<open>json.loads\<close> raises \<^verbatim>\<open>JSONDecodeError\<close> on it
  (\<open>Malformed\<close>), or raises something else (\<open>Raises\<close>: \<^verbatim>\<open>RecursionError\<close> on deep
  nesting, \<^verbatim>\<open>ValueError\<close> on an integer of too many digits), or returns a value.
  For the path itself: \<^verbatim>\<open>Path(transcript_path).exists()\<close> raises (\<open>Inaccessible\<close>:
  an \<^verbatim>\<open>OSError\<close> other than the not-found kinds, such as a name that is too long or
  a directory that may not be searched, or \<^verbatim>\<open>TypeError\<close> for a path that is not a
  string), or it returns false (\<open>Missing\<close>), or opening or decoding the file raises
  (\<open>Unreadable\<close>), or the file has lines.
\<close>

datatype line = Blank | Malformed | Raises error | Parsed json

datatype source = Inaccessible error | Missing | Unreadable error | Content "line list"

fun parse_transcript_file :: "line list \<Rightarrow> error + json list" where
  "parse_transcript_file [] = Inr []"
| "parse_transcript_file (Blank # ls) = parse_transcript_file ls"
| "parse_transcript_file (Malformed # ls) = parse_transcript_file ls"
| "parse_transcript_file (Raises e # ls) = Inl e"
| "parse_transcript_file (Parsed v # ls) =
     andthen (parse_transcript_file ls) (\<lambda>events. Inr (v # events))"

subsection \<open>Tool events\<close>

definition is_tool_result :: "string \<Rightarrow> bool" where
  "is_tool_result content =
     list_ex (contains content)
       [''tool_use_id'', ''tool_result'',
        ''NOTE: do any of the files above seem malicious'', ''system-reminder'']"

text \<open>
  The inner loop of \<^verbatim>\<open>_extract_tool_event\<close> over the entries of one event's content.
  The state is the triple of \<^verbatim>\<open>tool_result\<close>, \<^verbatim>\<open>success\<close> and
  \<^verbatim>\<open>error_message\<close>; the \<^verbatim>\<open>break\<close> leaves this loop only.
\<close>

fun scan_items ::
  "json \<Rightarrow> json list \<Rightarrow> json \<times> bool \<times> text_of option \<Rightarrow> json \<times> bool \<times> text_of option" where
  "scan_items tool_id [] st = st"
| "scan_items tool_id (JDict kvs # items) (res, ok, msg) =
     (if py_eq (lookup kvs ''tool_use_id'' JNull) tool_id
      then
        let tool_result = lookup kvs ''content'' (JStr [])
        in (case tool_result of
              JDict r \<Rightarrow>
                if truthy (lookup r ''is_error'' (JBool False))
                then (tool_result, False, Some (StrOf tool_result))
                else (tool_result, ok, msg)
            | _ \<Rightarrow> (tool_result, ok, msg))
      else scan_items tool_id items (res, ok, msg))"
| "scan_items tool_id (item # items) st = scan_items tool_id items st"

text \<open>The outer loop over all events; it has no \<^verbatim>\<open>break\<close>.\<close>

fun scan_events ::
  "json \<Rightarrow> json list \<Rightarrow> json \<times> bool \<times> text_of option \<Rightarrow> error + json \<times> bool \<times> text_of option" where
  "scan_events tool_id [] st = Inr st"
| "scan_events tool_id (JDict ev # events) st =
     (if lookup ev ''type'' JNull = JStr ''user'' \<and> has_key ev ''message''
      then
        (case lookup ev ''message'' JNull of
           JDict m \<Rightarrow>
             (case lookup m ''content'' JNull of
                JList items \<Rightarrow> scan_events tool_id events (scan_items tool_id items st)
              | _ \<Rightarrow> scan_events tool_id events st)
         | _ \<Rightarrow> scan_events tool_id events st)
      else scan_events tool_id events st)"
| "scan_events tool_id (event # events) st = Inl AttributeError"

definition extract_tool_event :: "json \<Rightarrow> json list \<Rightarrow> error + ToolEvent" where
  "extract_tool_event tool_item all_events =
     andthen (dict_get tool_item ''name'' (JStr [])) (\<lambda>name.
     andthen (dict_get tool_item ''input'' (JDict [])) (\<lambda>input.
     andthen (dict_get tool_item ''id'' (JStr [])) (\<lambda>tool_id.
     andthen (scan_events tool_id all_events (JNull, True, None)) (\<lambda>(res, ok, msg).
       Inr \<lparr> tool_name = name, tool_input = input, tool_result = res,
             tool_success = ok, timestamp = [], error_message = msg \<rparr>))))"

subsection \<open>File operations and shell commands\<close>

definition operation_map :: "(string \<times> string) list" where
  "operation_map =
     [(''Read'', ''read''), (''Write'', ''write''), (''Edit'', ''edit''), (''MultiEdit'', ''edit'')]"

text \<open>\<^verbatim>\<open>operation_map.get(name, 'unknown')\<close>; the name is hashable where this is called.\<close>

fun operation_of :: "json \<Rightarrow> string" where
  "operation_of (JStr s) = (case map_of operation_map s of None \<Rightarrow> ''unknown'' | Some op \<Rightarrow> op)"
| "operation_of v = ''unknown''"

text \<open>\<^verbatim>\<open>content[:100] + '...' if len(content) > 100 else content\<close> on any value.\<close>

fun preview :: "json \<Rightarrow> error + json" where
  "preview (JStr s) = Inr (JStr (if length s > 100 then take 100 s @ ''...'' else s))"
| "preview (JList xs) = (if length xs > 100 then Inl TypeError else Inr (JList xs))"
| "preview (JDict kvs) = (if length kvs > 100 then Inl TypeError else Inr (JDict kvs))"
| "preview v = Inl TypeError"

definition extract_file_operation :: "ToolEvent \<Rightarrow> error + FileOperation option" where
  "extract_file_operation tool_event =
     andthen (member_of (tool_name tool_event) file_operation_tools) (\<lambda>is_file_tool.
     if \<not> is_file_tool then Inr None
     else
       let op = operation_of (tool_name tool_event) in
       andthen (dict_get (tool_input tool_event) ''file_path'' (JStr [])) (\<lambda>path.
       andthen
         (if op = ''write''
          then andthen (dict_get (tool_input tool_event) ''content'' (JStr []))
                 (\<lambda>content. andthen (preview content) (\<lambda>p. Inr (Some p)))
          else if op = ''edit''
          then andthen (dict_get (tool_input tool_event) ''new_string'' (JStr []))
                 (\<lambda>new_string. andthen (preview new_string) (\<lambda>p. Inr (Some p)))
          else Inr None)
         (\<lambda>prev.
            Inr (Some \<lparr> operation = op, file_path = path,
                        file_success = tool_success tool_event, content_preview = prev \<rparr>))))"

definition extract_bash_command :: "ToolEvent \<Rightarrow> error + BashCommand option" where
  "extract_bash_command tool_event =
     (if tool_name tool_event \<noteq> JStr ''Bash'' then Inr None
      else
        andthen (dict_get (tool_input tool_event) ''command'' (JStr [])) (\<lambda>cmd.
        andthen (dict_get (tool_input tool_event) ''description'' (JStr [])) (\<lambda>descr.
          let (out, err) =
            (case tool_result tool_event of
               JDict r \<Rightarrow> (lookup r ''stdout'' (JStr []), lookup r ''stderr'' (JStr []))
             | JStr s \<Rightarrow> (JStr s, JStr [])
             | _ \<Rightarrow> (JStr [], JStr []))
          in Inr (Some \<lparr> command = cmd, bash_success = tool_success tool_event,
                          stdout = out, stderr = err, description = descr \<rparr>))))"

subsection \<open>The event loop\<close>

text \<open>The local containers of \<^verbatim>\<open>_analyze_events\<close>.\<close>

record containers =
  c_session_id :: json
  c_user_messages :: "string list"
  c_assistant_responses :: "string list"
  c_tool_events :: "ToolEvent list"
  c_file_operations :: "FileOperation list"
  c_bash_commands :: "BashCommand list"
  c_errors :: "string list"
  c_timestamps :: "json list"

definition initial_containers :: containers where
  "initial_containers =
     \<lparr> c_session_id = JStr ''unknown'', c_user_messages = [], c_assistant_responses = [],
       c_tool_events = [], c_file_operations = [], c_bash_commands = [], c_errors = [],
       c_timestamps = [] \<rparr>"

text \<open>One entry of an assistant message's content.\<close>

fun process_item :: "json list \<Rightarrow> containers \<Rightarrow> json \<Rightarrow> error + containers" where
  "process_item events acc (JDict item) =
     (if lookup item ''type'' JNull = JStr ''tool_use''
      then
        andthen (extract_tool_event (JDict item) events) (\<lambda>tool_event.
          let acc1 = acc\<lparr>c_tool_events := c_tool_events acc @ [tool_event]\<rparr> in
          andthen (member_of (tool_name tool_event) file_operation_tools) (\<lambda>is_file_tool.
            if is_file_tool
            then andthen (extract_file_operation tool_event) (\<lambda>file_op.
                   case file_op of
                     None \<Rightarrow> Inr acc1
                   | Some fo \<Rightarrow>
                       Inr (acc1\<lparr>c_file_operations := c_file_operations acc1 @ [fo]\<rparr>))
            else if tool_name tool_event = JStr ''Bash''
            then andthen (extract_bash_command tool_event) (\<lambda>bash_cmd.
                   case bash_cmd of
                     None \<Rightarrow> Inr acc1
                   | Some bc \<Rightarrow>
                       Inr (acc1\<lparr>c_bash_commands := c_bash_commands acc1 @ [bc]\<rparr>))
            else Inr acc1))
      else if lookup item ''type'' JNull = JStr ''text''
      then
        (case lookup item ''text'' (JStr []) of
           JStr t \<Rightarrow>
             (let text = strip t
              in if text \<noteq> []
                 then Inr (acc\<lparr>c_assistant_responses := c_assistant_responses acc @ [text]\<rparr>)
                 else Inr acc)
         | _ \<Rightarrow> Inl AttributeError)
      else Inr acc)"
| "process_item events acc item = Inr acc"

text \<open>The three branches on the event type, after the timestamp and the session identifier.\<close>

definition classify_event ::
  "json list \<Rightarrow> containers \<Rightarrow> (string \<times> json) list \<Rightarrow> json \<Rightarrow> error + containers" where
  "classify_event events acc event event_type =
     (if event_type = JStr ''user'' \<and> has_key event ''message''
      then
        (case lookup event ''message'' JNull of
           JDict message \<Rightarrow>
             if lookup message ''role'' JNull = JStr ''user''
             then
               (case lookup message ''content'' (JStr []) of
                  JStr content \<Rightarrow>
                    if strip content \<noteq> [] \<and> \<not> is_tool_result content
                    then Inr (acc\<lparr>c_user_messages := c_user_messages acc @ [strip content]\<rparr>)
                    else Inr acc
                | _ \<Rightarrow> Inr acc)
             else Inr acc
         | _ \<Rightarrow> Inr acc)
      else if event_type = JStr ''assistant'' \<and> has_key event ''message''
      then
        (case lookup event ''message'' JNull of
           JDict message \<Rightarrow>
             (case lookup message ''content'' (JList []) of
                JList items \<Rightarrow> for_each (process_item events) items acc
              | _ \<Rightarrow> Inr acc)
         | _ \<Rightarrow> Inr acc)
      else if event_type = JStr ''system''
      then
        (case lookup event ''content'' (JStr []) of
           JStr content \<Rightarrow>
             if contains (lower content) ''error'' \<or> contains (lower content) ''failed''
             then Inr (acc\<lparr>c_errors := c_errors acc @ [content]\<rparr>)
             else Inr acc
         | _ \<Rightarrow> Inl AttributeError)
      else Inr acc)"

fun process_event :: "json list \<Rightarrow> containers \<Rightarrow> json \<Rightarrow> error + containers" where
  "process_event events acc (JDict event) =
     (let event_type = lookup event ''type'' (JStr []);
          stamp = lookup event ''timestamp'' (JStr []);
          acc1 = (if truthy stamp then acc\<lparr>c_timestamps := c_timestamps acc @ [stamp]\<rparr> else acc);
          acc2 = (if has_key event ''sessionId''
                  then acc1\<lparr>c_session_id := lookup event ''sessionId'' JNull\<rparr> else acc1)
      in classify_event events acc2 event event_type)"
| "process_event events acc event = Inl AttributeError"

subsection \<open>Duration\<close>

text \<open>
  \<^verbatim>\<open>datetime.fromisoformat\<close>, the subtraction of two datetimes and the rounding of a
  double belong to the Python library; they are parameters of the model.
  \<open>fromisoformat\<close> is \<open>None\<close> where the library raises; \<open>minutes_rounded start end\<close>
  is \<^verbatim>\<open>round((end - start).total_seconds() / 60, 1)\<close>, and \<open>None\<close> where the
  subtraction raises.
\<close>

record 'dt timelib =
  fromisoformat :: "string \<Rightarrow> 'dt option"
  minutes_rounded :: "'dt \<Rightarrow> 'dt \<Rightarrow> pyfloat option"

definition parse_stamp :: "'dt timelib \<Rightarrow> json \<Rightarrow> 'dt option" where
  "parse_stamp lib v =
     (case v of JStr s \<Rightarrow> fromisoformat lib (replace s (CHR ''Z'') ''+00:00'') | _ \<Rightarrow> None)"

definition calculate_duration :: "'dt timelib \<Rightarrow> json list \<Rightarrow> pyfloat" where
  "calculate_duration lib timestamps =
     (if length timestamps < 2 then Finite 0
      else
        (case parse_stamp lib (hd timestamps) of
           None \<Rightarrow> Finite 0
         | Some start_time \<Rightarrow>
             (case parse_stamp lib (last timestamps) of
                None \<Rightarrow> Finite 0
              | Some end_time \<Rightarrow>
                  (case minutes_rounded lib start_time end_time of
                     None \<Rightarrow> Finite 0
                   | Some d \<Rightarrow> d))))"

subsection \<open>Accomplishments and current context\<close>

fun lowered_command :: "BashCommand \<Rightarrow> error + string" where
  "lowered_command cmd = (case command cmd of JStr s \<Rightarrow> Inr (lower s) | _ \<Rightarrow> Inl AttributeError)"

definition identify_accomplishments ::
  "FileOperation list \<Rightarrow> BashCommand list \<Rightarrow> ToolEvent list \<Rightarrow> error + string list" where
  "identify_accomplishments file_ops bash_cmds tool_evs =
     (let files_created = filter (\<lambda>op. operation op = ''write'' \<and> file_success op) file_ops;
          files_modified = filter (\<lambda>op. operation op = ''edit'' \<and> file_success op) file_ops;
          a1 = (if files_created \<noteq> []
                then [''Created '' @ show_nat (length files_created) @ '' file(s)''] else []);
          a2 = (if files_modified \<noteq> []
                then [''Modified '' @ show_nat (length files_modified) @ '' file(s)''] else []);
          successful_commands = filter bash_success bash_cmds
      in
      andthen (map_result lowered_command successful_commands) (\<lambda>texts.
        let a3 = (if list_ex (\<lambda>t. contains t ''test'') texts then [''Ran tests''] else []);
            a4 = (if list_ex (\<lambda>t. list_ex (contains t) [''build'', ''compile'', ''npm'', ''yarn'']) texts
                  then [''Executed build commands''] else [])
        in
        andthen (filter_result (\<lambda>ev. member_of (tool_name ev) research_tools) tool_evs)
          (\<lambda>research_tools_used.
             Inr (a1 @ a2 @ a3 @ a4 @
                  (if research_tools_used \<noteq> [] then [''Conducted code research''] else [])))))"

text \<open>\<^verbatim>\<open>xs[-n:]\<close> for a positive \<open>n\<close>.\<close>

definition last_n :: "nat \<Rightarrow> 'a list \<Rightarrow> 'a list" where
  "last_n n xs = drop (length xs - n) xs"

definition generate_current_context ::
  "string list \<Rightarrow> FileOperation list \<Rightarrow> BashCommand list \<Rightarrow> error + string" where
  "generate_current_context msgs file_ops bash_cmds =
     (if msgs = [] then Inr ''Working on current task''
      else
        let last_message = last msgs in
        andthen (if file_ops \<noteq> []
                 then map_result (\<lambda>op. path_basename (file_path op)) (last_n 3 file_ops)
                 else Inr [])
          (\<lambda>recent_files.
             let context_parts =
                   (if last_message \<noteq> []
                    then [if length last_message > 50 then take 50 last_message @ ''...''
                          else last_message]
                    else []) @
                   (if recent_files \<noteq> [] then [''working on '' @ join '', '' recent_files] else [])
             in Inr (if context_parts \<noteq> [] then join '' - '' context_parts
                     else ''Working on current task'')))"

subsection \<open>The analysis\<close>

definition analyze_events :: "'dt timelib \<Rightarrow> json list \<Rightarrow> error + SessionAnalysis" where
  "analyze_events lib events =
     andthen (for_each (process_event events) events initial_containers) (\<lambda>acc.
     andthen (identify_accomplishments (c_file_operations acc) (c_bash_commands acc)
                (c_tool_events acc)) (\<lambda>accomplishments.
     andthen (generate_current_context (c_user_messages acc) (c_file_operations acc)
                (c_bash_commands acc)) (\<lambda>context.
       Inr \<lparr> session_id = SessionId (c_session_id acc),
             duration_minutes = calculate_duration lib (c_timestamps acc),
             user_messages = c_user_messages acc,
             tool_events = c_tool_events acc,
             file_operations = c_file_operations acc,
             bash_commands = c_bash_commands acc,
             errors = c_errors acc,
             assistant_responses = c_assistant_responses acc,
             key_accomplishments = accomplishments,
             current_context = context \<rparr>)))"

definition empty_analysis :: "session_ident \<Rightarrow> SessionAnalysis" where
  "empty_analysis ident =
     \<lparr> session_id = ident, duration_minutes = Finite 0, user_messages = [], tool_events = [],
       file_operations = [], bash_commands = [], errors = [], assistant_responses = [],
       key_accomplishments = [], current_context = ''Unknown context'' \<rparr>"

text \<open>
  \<^verbatim>\<open>analyze_transcript\<close>. The existence check comes before the \<^verbatim>\<open>try\<close>, so what it
  raises leaves the function; every exception of the parsing and of the analysis is caught.
\<close>

definition analyze_transcript :: "'dt timelib \<Rightarrow> source \<Rightarrow> error + SessionAnalysis" where
  "analyze_transcript lib src =
     (case src of
        Inaccessible e \<Rightarrow> Inl e
      | Missing \<Rightarrow> Inr (empty_analysis (SessionId (JStr ''transcript_not_found'')))
      | Unreadable e \<Rightarrow> Inr (empty_analysis (AnalysisError e))
      | Content ls \<Rightarrow>
          (case andthen (parse_transcript_file ls) (analyze_events lib) of
             Inl e \<Rightarrow> Inr (empty_analysis (AnalysisError e))
           | Inr analysis \<Rightarrow> Inr analysis))"

section \<open>Summary generator\<close>

subsection \<open>Truncation\<close>

definition max_tts_length :: nat where
  "max_tts_length = 80"

text \<open>
  \<^verbatim>\<open>_truncate_for_tts\<close>. The threshold \<^verbatim>\<open>self.max_tts_length * 0.7\<close> is the double
  \<open>56.0\<close> (the product is rounded to the nearest double, which is 56), and the test is
  the strict \<^verbatim>\<open>last_space > 56.0\<close>.
\<close>

definition truncate_for_tts :: "string \<Rightarrow> string" where
  "truncate_for_tts text =
     (if length text \<le> max_tts_length then text
      else
        let truncated = take max_tts_length text;
            last_space = rfind truncated (CHR '' '')
        in if last_space > 56 then take (nat last_space) truncated
           else rstrip truncated @ ''...'')"

subsection \<open>Configuration and randomness\<close>

text \<open>
  What the generator reads from outside: the two environment variables (\<open>None\<close> when
  unset), the outcome of \<^verbatim>\<open>random.random() < 0.3\<close>, and the index that
  \<^verbatim>\<open>random.choice\<close> draws.
\<close>

record ambient =
  env_summary_enabled :: "string option"
  env_engineer_name :: "string option"
  random_below_03 :: bool
  random_index :: nat

definition fallback_notification_messages :: "string list" where
  "fallback_notification_messages =
     [''Your agent needs your input'', ''Waiting for your response'',
      ''Input required to continue'']"

definition fallback_subagent_messages :: "string list" where
  "fallback_subagent_messages =
     [''Subagent Complete'', ''Subagent task finished'', ''Background work done'']"

definition random_choice :: "ambient \<Rightarrow> string list \<Rightarrow> string" where
  "random_choice amb pool = pool ! (random_index amb mod length pool)"

definition getenv :: "string option \<Rightarrow> string \<Rightarrow> string" where
  "getenv var dflt = (case var of None \<Rightarrow> dflt | Some v \<Rightarrow> v)"

definition is_summary_enabled :: "ambient \<Rightarrow> bool" where
  "is_summary_enabled amb = (lower (getenv (env_summary_enabled amb) ''true'') = ''true'')"

subsection \<open>Clauses\<close>

definition summarize_file_operations :: "FileOperation list \<Rightarrow> error + string" where
  "summarize_file_operations file_ops =
     (if file_ops = [] then Inr []
      else
        let created = filter (\<lambda>op. operation op = ''write'' \<and> file_success op) file_ops;
            modified = filter (\<lambda>op. operation op = ''edit'' \<and> file_success op) file_ops
        in
        andthen
          (if created \<noteq> []
           then (if length created = 1
                 then andthen (path_basename (file_path (hd created)))
                        (\<lambda>filename. Inr [''created '' @ filename])
                 else Inr [''created '' @ show_nat (length created) @ '' files''])
           else Inr [])
          (\<lambda>parts1.
             andthen
               (if modified \<noteq> []
                then (if length modified = 1 \<and> created = []
                      then andthen (path_basename (file_path (hd modified)))
                             (\<lambda>filename. Inr [''modified '' @ filename])
                      else Inr [''modified '' @ show_nat (length modified) @ '' files''])
                else Inr [])
               (\<lambda>parts2. Inr (join '', '' (parts1 @ parts2)))))"

definition summarize_research_activity :: "SessionAnalysis \<Rightarrow> error + string" where
  "summarize_research_activity analysis =
     andthen (filter_result (\<lambda>ev. member_of (tool_name ev) research_tools) (tool_events analysis))
       (\<lambda>research_events.
          if research_events \<noteq> []
          then (if length research_events = 1 then Inr ''conducted code analysis''
                else Inr (''analyzed '' @ show_nat (length research_events) @ '' code components''))
          else Inr [])"

definition generate_notification_context :: "SessionAnalysis \<Rightarrow> error + string" where
  "generate_notification_context analysis =
     (let recent_files = last_n 2 (file_operations analysis)
      in if file_operations analysis \<noteq> [] \<and> length recent_files = 1
         then andthen (path_basename (file_path (hd recent_files)))
                (\<lambda>filename. Inr (''Working on '' @ filename))
         else if file_operations analysis \<noteq> [] \<and> length recent_files > 1
         then Inr ''Working on multiple files''
         else if user_messages analysis \<noteq> []
         then
           (let last_message = last (user_messages analysis);
                has = (\<lambda>keywords. list_ex (contains (lower last_message)) keywords)
            in if has [''database'', ''db''] then Inr ''Setting up database''
               else if has [''test'', ''testing''] then Inr ''Working on tests''
               else if has [''auth'', ''authentication''] then Inr ''Implementing authentication''
               else if has [''api'', ''endpoint''] then Inr ''Building API''
               else Inr [])
         else Inr [])"

subsection \<open>Rendering\<close>

text \<open>
  The personalisation prefix of \<^verbatim>\<open>generate_notification_summary\<close>:
  \<^verbatim>\<open>f"{engineer_name}, " if engineer_name and random.random() < 0.3 else ""\<close>.
\<close>

definition name_prefix :: "ambient \<Rightarrow> string" where
  "name_prefix amb =
     (let engineer_name = strip (getenv (env_engineer_name amb) [])
      in if engineer_name \<noteq> [] \<and> random_below_03 amb then engineer_name @ '', '' else [])"

definition generate_notification_summary :: "ambient \<Rightarrow> SessionAnalysis \<Rightarrow> string" where
  "generate_notification_summary amb analysis =
     (if \<not> is_summary_enabled amb then random_choice amb fallback_notification_messages
      else
        let prefix = name_prefix amb
        in if current_context analysis \<noteq> [] \<and> current_context analysis \<noteq> ''Unknown context''
           then truncate_for_tts
                  (prefix @ ''Working on: '' @ current_context analysis @ '', needs your input'')
           else
             (case generate_notification_context analysis of
                Inl e \<Rightarrow> random_choice amb fallback_notification_messages
              | Inr recent_context \<Rightarrow>
                  if recent_context \<noteq> []
                  then truncate_for_tts (prefix @ recent_context @ '', needs your input'')
                  else prefix @ random_choice amb fallback_notification_messages))"

definition generate_subagent_summary :: "ambient \<Rightarrow> SessionAnalysis \<Rightarrow> string" where
  "generate_subagent_summary amb analysis =
     (if \<not> is_summary_enabled amb then random_choice amb fallback_subagent_messages
      else
        (case summarize_research_activity analysis of
           Inl e \<Rightarrow> random_choice amb fallback_subagent_messages
         | Inr research_summary \<Rightarrow>
             if research_summary \<noteq> []
             then truncate_for_tts (''Subagent completed: '' @ research_summary)
             else
               let file_count =
                     length (filter (\<lambda>op. operation op = ''read'') (file_operations analysis))
               in if file_operations analysis \<noteq> [] \<and> file_count > 0
                  then truncate_for_tts (''Subagent analyzed '' @ show_nat file_count @ '' files'')
                  else if key_accomplishments analysis \<noteq> []
                  then truncate_for_tts
                         (''Subagent completed: '' @ hd (key_accomplishments analysis))
                  else random_choice amb fallback_subagent_messages))"

text \<open>
  A library under which no timestamp parses, for evaluating the model on transcripts whose
  duration does not matter.
\<close>

definition no_timelib :: "unit timelib" where
  "no_timelib = \<lparr> fromisoformat = (\<lambda>s. None), minutes_rounded = (\<lambda>a b. None) \<rparr>"










section \<open>Specification-side definitions\<close>

text \<open>
  The \<^verbatim>\<open>sessionId\<close> values carried by the events of a transcript, in line order.
  This follows the specification's wording and is compared with what the event loop
  computes.
\<close>

fun spec_session_ids :: "json list \<Rightarrow> json list" where
  "spec_session_ids [] = []"
| "spec_session_ids (JDict ev # events) =
     (if has_key ev ''sessionId'' then lookup ev ''sessionId'' JNull # spec_session_ids events
      else spec_session_ids events)"
| "spec_session_ids (event # events) = spec_session_ids events"

text \<open>The last up to \<open>n\<close> elements of a list, in their order.\<close>

definition spec_last_up_to :: "nat \<Rightarrow> 'a list \<Rightarrow> 'a list" where
  "spec_last_up_to n xs = rev (take n (rev xs))"



text \<open>A message cut to 50 characters, with an ellipsis when it was longer.\<close>

definition spec_clip50 :: "string \<Rightarrow> string" where
  "spec_clip50 m = (if length m > 50 then take 50 m @ ''...'' else m)"

section \<open>Example inputs\<close>

text \<open>The generator's surroundings with neither environment variable set.\<close>

definition default_ambient :: ambient where
  "default_ambient =
     \<lparr> env_summary_enabled = None, env_engineer_name = None,
       random_below_03 = False, random_index = 0 \<rparr>"

text \<open>
  A transcript in which the assistant reads two files in one message, and the next
  event carries both results: the first read succeeded, the second is flagged as an error.
\<close>

definition two_reads_transcript :: "line list" where
  "two_reads_transcript =
     [Parsed (JDict
        [(''type'', JStr ''assistant''),
         (''message'', JDict
            [(''role'', JStr ''assistant''),
             (''content'', JList
                [JDict [(''type'', JStr ''tool_use''), (''id'', JStr ''t1''),
                        (''name'', JStr ''Read''),
                        (''input'', JDict [(''file_path'', JStr ''src/a.py'')])],
                 JDict [(''type'', JStr ''tool_use''), (''id'', JStr ''t2''),
                        (''name'', JStr ''Read''),
                        (''input'', JDict [(''file_path'', JStr ''src/b.py'')])]])])]),
      Parsed (JDict
        [(''type'', JStr ''user''),
         (''message'', JDict
            [(''role'', JStr ''user''),
             (''content'', JList
                [JDict [(''type'', JStr ''tool_result''), (''tool_use_id'', JStr ''t1''),
                        (''content'', JStr ''print(1)'')],
                 JDict [(''type'', JStr ''tool_result''), (''tool_use_id'', JStr ''t2''),
                        (''content'', JDict [(''is_error'', JBool True)])]])])])]"

text \<open>
  A tool invocation \<open>t1\<close> and two later events that each carry a result for it: the
  first an error, the second a plain string.
\<close>

definition bash_tool_item :: json where
  "bash_tool_item =
     JDict [(''type'', JStr ''tool_use''), (''id'', JStr ''t1''), (''name'', JStr ''Bash''),
            (''input'', JDict [(''command'', JStr ''make'')])]"

definition result_event :: "json \<Rightarrow> json" where
  "result_event content =
     JDict [(''type'', JStr ''user''),
            (''message'', JDict
               [(''role'', JStr ''user''),
                (''content'', JList
                   [JDict [(''type'', JStr ''tool_result''), (''tool_use_id'', JStr ''t1''),
                           (''content'', content)]])])]"

definition two_results_events :: "json list" where
  "two_results_events =
     [JDict [(''type'', JStr ''assistant''),
             (''message'', JDict [(''content'', JList [bash_tool_item])])],
      result_event (JDict [(''is_error'', JBool True), (''stderr'', JStr ''no rule'')]),
      result_event (JStr ''done'')]"

definition file_op :: "string \<Rightarrow> string \<Rightarrow> bool \<Rightarrow> FileOperation" where
  "file_op kind path ok =
     \<lparr> operation = kind, file_path = JStr path, file_success = ok, content_preview = None \<rparr>"

definition tool_call :: "string \<Rightarrow> ToolEvent" where
  "tool_call name =
     \<lparr> tool_name = JStr name, tool_input = JDict [], tool_result = JNull,
       tool_success = True, timestamp = [], error_message = None \<rparr>"

text \<open>
  A short session: the user asks for a fix, the assistant writes one file and edits
  another, and a system event closes it. Two events carry a session identifier.
\<close>

definition edit_session_events :: "json list" where
  "edit_session_events =
     [JDict [(''type'', JStr ''user''), (''sessionId'', JStr ''s1''),
             (''message'', JDict [(''role'', JStr ''user''),
                                  (''content'', JStr ''Please fix the bug'')])],
      JDict [(''type'', JStr ''assistant''),
             (''message'', JDict
                [(''role'', JStr ''assistant''),
                 (''content'', JList
                    [JDict [(''type'', JStr ''text''), (''text'', JStr ''On it.'')],
                     JDict [(''type'', JStr ''tool_use''), (''id'', JStr ''w1''),
                            (''name'', JStr ''Write''),
                            (''input'', JDict [(''file_path'', JStr ''src/a.py''),
                                               (''content'', JStr ''x = 1'')])],
                     JDict [(''type'', JStr ''tool_use''), (''id'', JStr ''e1''),
                            (''name'', JStr ''Edit''),
                            (''input'', JDict [(''file_path'', JStr ''src/b.py''),
                                               (''new_string'', JStr ''y = 2'')])]])])],
      JDict [(''type'', JStr ''system''), (''sessionId'', JStr ''s2''),
             (''content'', JStr ''done'')]]"

text \<open>
  A longer session: a user message of more than 50 characters, then five file operations
  in one assistant message. Every event carries a timestamp; the second is not a date.
\<close>

definition file_tool_use :: "string \<Rightarrow> string \<Rightarrow> string \<Rightarrow> json" where
  "file_tool_use ident name path =
     JDict [(''type'', JStr ''tool_use''), (''id'', JStr ident), (''name'', JStr name),
            (''input'', JDict [(''file_path'', JStr path)])]"

definition busy_session_events :: "json list" where
  "busy_session_events =
     [JDict [(''type'', JStr ''user''), (''timestamp'', JStr ''2024-01-01T00:00:00Z''),
             (''message'', JDict
                [(''role'', JStr ''user''),
                 (''content'',
                  JStr ''Please refactor the parser module and add all the missing unit tests'')])],
      JDict [(''type'', JStr ''assistant''), (''timestamp'', JStr ''soon''),
             (''message'', JDict
                [(''role'', JStr ''assistant''),
                 (''content'', JList
                    [file_tool_use ''t1'' ''Read'' ''src/a.py'',
                     file_tool_use ''t2'' ''Write'' ''src/b.py'',
                     file_tool_use ''t3'' ''Edit'' ''src/c.py'',
                     file_tool_use ''t4'' ''Read'' ''tests/d.py'',
                     file_tool_use ''t5'' ''MultiEdit'' ''tests/e.py''])])],
      JDict [(''type'', JStr ''system''), (''timestamp'', JStr ''2024-01-01T00:01:40Z''),
             (''content'', JStr ''done'')]]"

text \<open>A transcript whose only event is the user message \<open>Unknown context\<close>.\<close>

definition unknown_context_transcript :: "line list" where
  "unknown_context_transcript =
     [Parsed (JDict [(''type'', JStr ''user''),
                     (''message'', JDict [(''role'', JStr ''user''),
                                          (''content'', JStr ''Unknown context'')])])]"

section \<open>Properties of the truncation\<close>

lemma rfind_absent: "c \<notin> set s \<Longrightarrow> rfind s c = - 1"
  by (induction s) (auto simp: Let_def)

lemma rfind_last:
  "i < length s \<Longrightarrow> s ! i = c \<Longrightarrow> (\<forall>j. i < j \<and> j < length s \<longrightarrow> s ! j \<noteq> c)
   \<Longrightarrow> rfind s c = int i"
proof (induction s arbitrary: i)
  case Nil
  then show ?case by simp
next
  case (Cons x xs)
  show ?case
  proof (cases i)
    case 0
    have "c \<notin> set xs"
    proof
      assume "c \<in> set xs"
      then obtain k where k: "k < length xs" "xs ! k = c"
        by (auto simp: in_set_conv_nth)
      with Cons.prems(3) 0 have "(x # xs) ! Suc k \<noteq> c" by auto
      with k show False by simp
    qed
    then have "rfind xs c = - 1" by (rule rfind_absent)
    with 0 Cons.prems show ?thesis by (simp add: Let_def)
  next
    case (Suc k)
    have "rfind xs c = int k"
    proof (rule Cons.IH)
      show "k < length xs" using Cons.prems Suc by simp
      show "xs ! k = c" using Cons.prems Suc by simp
      show "\<forall>j. k < j \<and> j < length xs \<longrightarrow> xs ! j \<noteq> c"
      proof (intro allI impI)
        fix j assume "k < j \<and> j < length xs"
        then have "Suc k < Suc j \<and> Suc j < length (x # xs)" by simp
        with Cons.prems(3) Suc have "(x # xs) ! Suc j \<noteq> c" by blast
        then show "xs ! j \<noteq> c" by simp
      qed
    qed
    then show ?thesis using Suc by (simp add: Let_def)
  qed
qed

lemma rfind_bound:
  assumes a: "\<forall>j. k < j \<and> j < length s \<longrightarrow> s ! j \<noteq> c"
  shows "rfind s c \<le> int k"
proof (cases "c \<in> set s")
  case False
  then show ?thesis using rfind_absent[of c s] by simp
next
  case True
  let ?P = "\<lambda>i. i < length s \<and> s ! i = c"
  from True obtain i0 where "?P i0" by (auto simp: in_set_conv_nth)
  then have ex: "\<exists>i. ?P i" by blast
  define m where "m = (GREATEST i. ?P i)"
  have Pm: "?P m" unfolding m_def by (rule GreatestI_ex_nat[OF ex, of "length s"]) simp
  have mx: "\<And>j. ?P j \<Longrightarrow> j \<le> m"
    unfolding m_def by (rule Greatest_le_nat[where b = "length s"]) auto
  have "rfind s c = int m"
  proof (rule rfind_last)
    show "m < length s" using Pm by simp
    show "s ! m = c" using Pm by simp
    show "\<forall>j. m < j \<and> j < length s \<longrightarrow> s ! j \<noteq> c" using mx by fastforce
  qed
  moreover have "m \<le> k"
  proof (rule ccontr)
    assume "\<not> m \<le> k"
    then have "k < m \<and> m < length s" using Pm by simp
    with a have "s ! m \<noteq> c" by blast
    with Pm show False by simp
  qed
  ultimately show ?thesis by simp
qed

lemma rstrip_no_trailing_space: "s \<noteq> [] \<Longrightarrow> \<not> isspace (last s) \<Longrightarrow> rstrip s = s"
  by (cases s rule: rev_cases) (auto simp: rstrip_def)

lemma truncate_short: "length text \<le> 80 \<Longrightarrow> truncate_for_tts text = text"
  by (simp add: truncate_for_tts_def max_tts_length_def)

lemma truncate_at_space:
  assumes "80 < length text" "56 < i" "i < 80" "text ! i = CHR '' ''"
    and "\<forall>j. i < j \<and> j < 80 \<longrightarrow> text ! j \<noteq> CHR '' ''"
  shows "truncate_for_tts text = take i text"
proof -
  have "rfind (take 80 text) (CHR '' '') = int i"
    using assms by (intro rfind_last) auto
  then show ?thesis
    using assms by (simp add: truncate_for_tts_def max_tts_length_def Let_def min_def)
qed

lemma truncate_ellipsis:
  assumes "80 < length text" and "\<forall>j. 56 < j \<and> j < 80 \<longrightarrow> text ! j \<noteq> CHR '' ''"
  shows "truncate_for_tts text = rstrip (take 80 text) @ ''...''"
proof -
  have "rfind (take 80 text) (CHR '' '') \<le> int 56"
    using assms by (intro rfind_bound) auto
  then show ?thesis
    using assms by (simp add: truncate_for_tts_def max_tts_length_def Let_def)
qed

text \<open>
  C4 (as the code has it). A text of at most 80 characters is returned unchanged. For a
  longer text, when the last space of the first 80 characters is at an index strictly
  greater than 56, the result is the text before that space, with no ellipsis; when
  there is no space at an index greater than 56 in the window, the result is the first 80
  characters with trailing whitespace removed, followed by \<open>...\<close>. In particular a text
  of 95 characters with no space at the indices 56 to 79, and whose character at index 79 is
  not whitespace, becomes its first 80 characters followed by \<open>...\<close>.
\<close>

theorem truncate_for_tts_rule:
  "(length text \<le> 80 \<longrightarrow> truncate_for_tts text = text) \<and>
   (80 < length text \<and> 56 < i \<and> i < 80 \<and> text ! i = CHR '' '' \<and>
      (\<forall>j. i < j \<and> j < 80 \<longrightarrow> text ! j \<noteq> CHR '' '')
        \<longrightarrow> truncate_for_tts text = take i text) \<and>
   (80 < length text \<and> (\<forall>j. 56 < j \<and> j < 80 \<longrightarrow> text ! j \<noteq> CHR '' '')
        \<longrightarrow> truncate_for_tts text = rstrip (take 80 text) @ ''...'') \<and>
   (length text = 95 \<and> (\<forall>j. 56 \<le> j \<and> j < 80 \<longrightarrow> text ! j \<noteq> CHR '' '') \<and>
      \<not> isspace (text ! 79)
        \<longrightarrow> truncate_for_tts text = take 80 text @ ''...'')"
proof (intro conjI impI)
  assume "length text \<le> 80"
  then show "truncate_for_tts text = text" by (rule truncate_short)
next
  assume "80 < length text \<and> 56 < i \<and> i < 80 \<and> text ! i = CHR '' '' \<and>
      (\<forall>j. i < j \<and> j < 80 \<longrightarrow> text ! j \<noteq> CHR '' '')"
  then show "truncate_for_tts text = take i text" by (intro truncate_at_space) auto
next
  assume "80 < length text \<and> (\<forall>j. 56 < j \<and> j < 80 \<longrightarrow> text ! j \<noteq> CHR '' '')"
  then show "truncate_for_tts text = rstrip (take 80 text) @ ''...''"
    by (intro truncate_ellipsis) auto
next
  assume h: "length text = 95 \<and> (\<forall>j. 56 \<le> j \<and> j < 80 \<longrightarrow> text ! j \<noteq> CHR '' '') \<and>
      \<not> isspace (text ! 79)"
  then have "truncate_for_tts text = rstrip (take 80 text) @ ''...''"
    by (intro truncate_ellipsis) auto
  moreover have ne: "take 80 text \<noteq> []"
    using h by auto
  have "last (take 80 text) = text ! 79"
    using h by (simp add: last_conv_nth [OF ne] min_def)
  then have "rstrip (take 80 text) = take 80 text"
    using h ne by (intro rstrip_no_trailing_space) auto
  ultimately show "truncate_for_tts text = take 80 text @ ''...''" by simp
qed

theorem truncate_for_tts_rule_witness:
  "truncate_for_tts ''Completed: ran tests'' = ''Completed: ran tests'' \<and>
   truncate_for_tts (replicate 60 (CHR ''a'') @ '' '' @ replicate 34 (CHR ''b''))
     = replicate 60 (CHR ''a'') \<and>
   truncate_for_tts (replicate 95 (CHR ''a'')) = replicate 80 (CHR ''a'') @ ''...''"
proof (intro conjI)
  show "truncate_for_tts ''Completed: ran tests'' = ''Completed: ran tests''"
    using truncate_for_tts_rule [of "''Completed: ran tests''" 0] by simp
next
  let ?t = "replicate 60 (CHR ''a'') @ '' '' @ replicate 34 (CHR ''b'')"
  have "\<forall>j. 60 < j \<and> j < 80 \<longrightarrow> ?t ! j \<noteq> CHR '' ''"
    by (auto simp: nth_append nth_Cons')
  moreover have "?t ! 60 = CHR '' ''" by (simp add: nth_append)
  ultimately show "truncate_for_tts ?t = replicate 60 (CHR ''a'')"
    using truncate_for_tts_rule [of ?t 60] by simp
next
  let ?t = "replicate 95 (CHR ''a'')"
  have "\<forall>j. 56 \<le> j \<and> j < 80 \<longrightarrow> ?t ! j \<noteq> CHR '' ''" by simp
  moreover have "\<not> isspace (?t ! 79)" by (simp add: isspace_def)
  moreover have "length ?t = 95 \<and> (\<forall>j. 56 \<le> j \<and> j < 80 \<longrightarrow> ?t ! j \<noteq> CHR '' '') \<and>
      \<not> isspace (?t ! 79) \<longrightarrow> truncate_for_tts ?t = take 80 ?t @ ''...''"
    using truncate_for_tts_rule [of ?t 0] by blast
  ultimately show "truncate_for_tts ?t = replicate 80 (CHR ''a'') @ ''...''"
    by (simp add: take_replicate)
qed

text \<open>
  C4 as stated fails twice. A space at index 56 exactly does not make a word boundary:
  the result is the 80-character cut with the ellipsis. And the cut is stripped of
  trailing whitespace before the ellipsis: with a tab at index 79, a 95-character text
  with no space at all gives 79 characters and the ellipsis.
\<close>

theorem truncate_for_tts_counterexample:
  "truncate_for_tts (replicate 56 (CHR ''a'') @ '' '' @ replicate 38 (CHR ''b''))
     = replicate 56 (CHR ''a'') @ '' '' @ replicate 23 (CHR ''b'') @ ''...'' \<and>
   truncate_for_tts (replicate 79 (CHR ''a'') @ [CHR 0x09] @ replicate 15 (CHR ''b''))
     = replicate 79 (CHR ''a'') @ ''...''"
  by code_simp

section \<open>Properties of the clauses and of the subagent summary\<close>

lemma andthen_Inr [simp]: "andthen (Inr v) f = f v"
  by (simp add: andthen_def)

lemma andthen_Inl [simp]: "andthen (Inl e) f = Inl e"
  by (simp add: andthen_def)

lemma show_nat_one: "show_nat (Suc 0) = ''1''"
  by code_simp

text \<open>
  C3 (as the code has it). When exactly one successful write and exactly one successful
  edit are among the file operations, and the written file's path is a string, the file
  clause is \<open>created <name>, modified 1 files\<close>: the edited file is named only
  when nothing was created.
\<close>

theorem file_clause_one_write_one_edit:
  assumes "filter (\<lambda>op. operation op = ''write'' \<and> file_success op) file_ops = [w]"
    and "length (filter (\<lambda>op. operation op = ''edit'' \<and> file_success op) file_ops) = 1"
    and "file_path w = JStr p"
  shows "summarize_file_operations file_ops
           = Inr (''created '' @ path_name p @ '', modified 1 files'')"
proof -
  have ne: "file_ops \<noteq> []" using assms(1) by auto
  have m: "filter (\<lambda>op. operation op = ''edit'' \<and> file_success op) file_ops \<noteq> []"
    using assms(2) by auto
  show ?thesis
    unfolding summarize_file_operations_def
    using ne m assms by (simp add: Let_def show_nat_one)
qed

theorem file_clause_one_write_one_edit_witness:
  "summarize_file_operations
     [file_op ''read'' ''README.md'' True, file_op ''write'' ''src/new.py'' True,
      file_op ''write'' ''src/lost.py'' False, file_op ''edit'' ''src/old.py'' True]
   = Inr ''created new.py, modified 1 files''"
proof -
  let ?ops = "[file_op ''read'' ''README.md'' True, file_op ''write'' ''src/new.py'' True,
      file_op ''write'' ''src/lost.py'' False, file_op ''edit'' ''src/old.py'' True]"
  have 1: "filter (\<lambda>op. operation op = ''write'' \<and> file_success op) ?ops
             = [file_op ''write'' ''src/new.py'' True]"
    by (simp add: file_op_def)
  have 2: "length (filter (\<lambda>op. operation op = ''edit'' \<and> file_success op) ?ops) = 1"
    by (simp add: file_op_def)
  have 3: "file_path (file_op ''write'' ''src/new.py'' True) = JStr ''src/new.py''"
    by (simp add: file_op_def)
  have 4: "path_name ''src/new.py'' = ''new.py''"
    by code_simp
  show ?thesis
    using file_clause_one_write_one_edit [OF 1 2 3] by (simp add: 4)
qed

text \<open>
  C3 as stated fails: after one successful write of \<open>src/a.py\<close> and one successful edit
  of \<open>src/b.py\<close> the clause does not name \<open>b.py\<close>.
\<close>

theorem file_clause_counterexample:
  "summarize_file_operations [file_op ''write'' ''src/a.py'' True, file_op ''edit'' ''src/b.py'' True]
     = Inr ''created a.py, modified 1 files''"
  by code_simp

lemma filter_result_member:
  "\<forall>ev\<in>set evs. \<not> is_list (tool_name ev) \<and> \<not> is_dict (tool_name ev) \<Longrightarrow>
   filter_result (\<lambda>ev. member_of (tool_name ev) names) evs
     = Inr (filter (\<lambda>ev. tool_name ev \<in> JStr ` set names) evs)"
proof (induction evs)
  case Nil
  then show ?case by simp
next
  case (Cons ev evs)
  then have "member_of (tool_name ev) names = Inr (tool_name ev \<in> JStr ` set names)"
    by (cases "tool_name ev") auto
  with Cons show ?case by simp
qed

lemma truncate_singular:
  "truncate_for_tts ''Subagent completed: conducted code analysis''
     = ''Subagent completed: conducted code analysis''"
  by (simp add: truncate_for_tts_def max_tts_length_def)

text \<open>
  C5 (as the code has it). With summaries enabled and every tool name hashable (not a
  list or a dict), let \<open>n\<close> be the number of tool events whose name is in the
  research-tool set. If \<open>n = 1\<close> the subagent summary is
  \<open>Subagent completed: conducted code analysis\<close>; if \<open>n > 1\<close> it is the truncation
  of \<open>Subagent completed: analyzed n code components\<close>.
\<close>

theorem subagent_summary_research:
  assumes "is_summary_enabled amb"
    and "\<forall>ev\<in>set (tool_events a). \<not> is_list (tool_name ev) \<and> \<not> is_dict (tool_name ev)"
    and "n = length (filter (\<lambda>ev. tool_name ev \<in> JStr ` set research_tools) (tool_events a))"
    and "0 < n"
  shows "generate_subagent_summary amb a =
           (if n = 1 then ''Subagent completed: conducted code analysis''
            else truncate_for_tts
                   (''Subagent completed: analyzed '' @ show_nat n @ '' code components''))"
proof -
  let ?evs = "filter (\<lambda>ev. tool_name ev \<in> JStr ` set research_tools) (tool_events a)"
  have ne: "?evs \<noteq> []" using assms(3,4) by auto
  have r: "summarize_research_activity a =
             Inr (if n = 1 then ''conducted code analysis''
                  else ''analyzed '' @ show_nat n @ '' code components'')"
    unfolding summarize_research_activity_def
    using filter_result_member [OF assms(2), of research_tools] ne assms(3) by simp
  show ?thesis
  proof (cases "n = 1")
    case True
    with r assms(1) show ?thesis
      by (simp add: generate_subagent_summary_def truncate_singular)
  next
    case False
    with r assms(1) show ?thesis
      by (simp add: generate_subagent_summary_def)
  qed
qed

theorem subagent_summary_research_witness:
  "generate_subagent_summary default_ambient
     ((empty_analysis (SessionId (JStr ''s1'')))
        \<lparr> tool_events := [tool_call ''Read'', tool_call ''Grep''] \<rparr>)
   = ''Subagent completed: conducted code analysis'' \<and>
   generate_subagent_summary default_ambient
     ((empty_analysis (SessionId (JStr ''s1'')))
        \<lparr> tool_events := [tool_call ''LS'', tool_call ''Bash'', tool_call ''WebFetch''] \<rparr>)
   = ''Subagent completed: analyzed 2 code components''"
proof (intro conjI)
  let ?a = "(empty_analysis (SessionId (JStr ''s1'')))
        \<lparr> tool_events := [tool_call ''Read'', tool_call ''Grep''] \<rparr>"
  have 1: "is_summary_enabled default_ambient"
    by code_simp
  have 2: "\<forall>ev\<in>set (tool_events ?a). \<not> is_list (tool_name ev) \<and> \<not> is_dict (tool_name ev)"
    by (simp add: tool_call_def)
  have 3: "1 = length (filter (\<lambda>ev. tool_name ev \<in> JStr ` set research_tools) (tool_events ?a))"
    by (simp add: tool_call_def research_tools_def)
  show "generate_subagent_summary default_ambient ?a
          = ''Subagent completed: conducted code analysis''"
    using subagent_summary_research [OF 1 2 3] by simp
next
  let ?a = "(empty_analysis (SessionId (JStr ''s1'')))
        \<lparr> tool_events := [tool_call ''LS'', tool_call ''Bash'', tool_call ''WebFetch''] \<rparr>"
  have 1: "is_summary_enabled default_ambient"
    by code_simp
  have 2: "\<forall>ev\<in>set (tool_events ?a). \<not> is_list (tool_name ev) \<and> \<not> is_dict (tool_name ev)"
    by (simp add: tool_call_def)
  have 3: "2 = length (filter (\<lambda>ev. tool_name ev \<in> JStr ` set research_tools) (tool_events ?a))"
    by (simp add: tool_call_def research_tools_def)
  have 4: "truncate_for_tts (''Subagent completed: analyzed '' @ show_nat 2 @ '' code components'')
             = ''Subagent completed: analyzed 2 code components''"
    by code_simp
  have r: "generate_subagent_summary default_ambient ?a =
           (if (2::nat) = 1 then ''Subagent completed: conducted code analysis''
            else truncate_for_tts
                   (''Subagent completed: analyzed '' @ show_nat 2 @ '' code components''))"
    by (rule subagent_summary_research [OF 1 2 3]) simp
  show "generate_subagent_summary default_ambient ?a
          = ''Subagent completed: analyzed 2 code components''"
    unfolding r 4 by simp
qed

text \<open>
  C5 as stated fails: with two research-tool events the summary is the plural wording.
\<close>

theorem subagent_summary_research_counterexample:
  "generate_subagent_summary default_ambient
     ((empty_analysis (SessionId (JStr ''s1'')))
        \<lparr> tool_events := [tool_call ''Grep'', tool_call ''Glob''] \<rparr>)
   = ''Subagent completed: analyzed 2 code components''"
  by code_simp

text \<open>
  C6 (the code at a failing input). In \<open>two_reads_transcript\<close> one of the two reads
  failed, and there is no research-tool event; the subagent summary counts both reads.
\<close>

theorem subagent_summary_counts_failed_reads:
  "map_sum id
     (\<lambda>a. (map file_success (file_operations a), generate_subagent_summary default_ambient a))
     (analyze_transcript no_timelib (Content two_reads_transcript))
   = Inr ([True, False], ''Subagent analyzed 2 files'')"
  by code_simp

text \<open>
  C2 (the code at a failing input). For the invocation \<open>t1\<close> of
  \<open>two_results_events\<close>, whose first result is an error and whose second result is
  the string \<open>done\<close>, the tool result is the content of the last matching event, while
  the success flag and the error message come from the first.
\<close>

theorem extract_tool_event_last_match:
  "extract_tool_event bash_tool_item two_results_events
     = Inr \<lparr> tool_name = JStr ''Bash'',
             tool_input = JDict [(''command'', JStr ''make'')],
             tool_result = JStr ''done'',
             tool_success = False,
             timestamp = [],
             error_message =
               Some (StrOf (JDict [(''is_error'', JBool True), (''stderr'', JStr ''no rule'')])) \<rparr>"
  by code_simp

section \<open>Properties of the analyzer\<close>

subsection \<open>Missing and corrupted sources\<close>



lemma analyze_transcript_returns:
  assumes "\<forall>e. src \<noteq> Inaccessible e"
  shows "\<exists>a. analyze_transcript lib src = Inr a \<and>
           ((\<exists>ident. a = empty_analysis ident) \<or> (\<exists>events. analyze_events lib events = Inr a))"
proof (cases src)
  case (Inaccessible e)
  with assms show ?thesis by simp
next
  case Missing
  then have "analyze_transcript lib src
               = Inr (empty_analysis (SessionId (JStr ''transcript_not_found'')))"
    by (simp add: analyze_transcript_def)
  then show ?thesis by blast
next
  case (Unreadable e)
  then have "analyze_transcript lib src = Inr (empty_analysis (AnalysisError e))"
    by (simp add: analyze_transcript_def)
  then show ?thesis by blast
next
  case (Content ls)
  show ?thesis
  proof (cases "parse_transcript_file ls")
    case (Inl e)
    with Content have "analyze_transcript lib src = Inr (empty_analysis (AnalysisError e))"
      by (simp add: analyze_transcript_def)
    then show ?thesis by blast
  next
    case (Inr events)
    show ?thesis
    proof (cases "analyze_events lib events")
      case (Inl e)
      with Inr Content have "analyze_transcript lib src = Inr (empty_analysis (AnalysisError e))"
        by (simp add: analyze_transcript_def)
      then show ?thesis by blast
    next
      case inr: (Inr a)
      with Inr Content have "analyze_transcript lib src = Inr a"
        by (simp add: analyze_transcript_def)
      with inr show ?thesis by blast
    qed
  qed
qed




subsection \<open>Duration\<close>











subsection \<open>Invariants of the event loop\<close>

lemma for_each_invariant:
  assumes step: "\<And>s x s'. f s x = Inr s' \<Longrightarrow> P s \<Longrightarrow> P s'"
  shows "for_each f xs s = Inr s' \<Longrightarrow> P s \<Longrightarrow> P s'"
proof (induction xs arbitrary: s)
  case Nil
  then show ?case by simp
next
  case (Cons x xs)
  from Cons.prems(1) obtain s1 where s1: "f s x = Inr s1" "for_each f xs s1 = Inr s'"
    by (cases "f s x") auto
  from step [OF s1(1) Cons.prems(2)] have "P s1" .
  with Cons.IH s1(2) show ?case by blast
qed

lemma process_item_session:
  "process_item events acc item = Inr acc' \<Longrightarrow> c_session_id acc' = c_session_id acc"
  by (cases item)
     (auto simp: andthen_def Let_def split: if_splits sum.splits option.splits json.splits)

lemma process_item_messages:
  "process_item events acc item = Inr acc' \<Longrightarrow> c_user_messages acc' = c_user_messages acc"
  by (cases item)
     (auto simp: andthen_def Let_def split: if_splits sum.splits option.splits json.splits)

lemma classify_event_session:
  assumes "classify_event events acc ev ty = Inr acc'"
  shows "c_session_id acc' = c_session_id acc"
proof -
  have items: "\<And>items. for_each (process_item events) items acc = Inr acc'
      \<Longrightarrow> c_session_id acc' = c_session_id acc"
    by (rule for_each_invariant [where P = "\<lambda>s. c_session_id s = c_session_id acc" and f = "process_item events"])
       (auto dest: process_item_session)
  from assms show ?thesis
    unfolding classify_event_def
    by (auto split: if_splits json.splits dest: items)
qed

lemma andthen_eq_Inr: "andthen r f = Inr y \<longleftrightarrow> (\<exists>v. r = Inr v \<and> f v = Inr y)"
  by (cases r) auto

lemma process_event_session:
  assumes "process_event events acc ev = Inr acc'"
  shows "c_session_id acc' =
           (if spec_session_ids [ev] = [] then c_session_id acc else last (spec_session_ids [ev]))"
proof (cases ev)
  case (JDict e)
  with assms show ?thesis
    by (auto simp: Let_def dest!: classify_event_session split: if_splits)
qed (use assms in auto)

lemma spec_session_ids_Cons:
  "spec_session_ids (ev # evs) = spec_session_ids [ev] @ spec_session_ids evs"
  by (cases ev) auto

lemma loop_session:
  "for_each (process_event events) evs acc = Inr acc' \<Longrightarrow>
   c_session_id acc' =
     (if spec_session_ids evs = [] then c_session_id acc else last (spec_session_ids evs))"
proof (induction evs arbitrary: acc)
  case Nil
  then show ?case by simp
next
  case (Cons ev evs)
  from Cons.prems obtain acc1 where
    1: "process_event events acc ev = Inr acc1" and
    2: "for_each (process_event events) evs acc1 = Inr acc'"
    by (auto simp: andthen_eq_Inr)
  define ids1 where "ids1 = spec_session_ids [ev]"
  have c: "spec_session_ids (ev # evs) = ids1 @ spec_session_ids evs"
    unfolding ids1_def by (rule spec_session_ids_Cons)
  from Cons.IH [OF 2] process_event_session [OF 1, folded ids1_def] show ?case
    unfolding c by auto
qed

text \<open>
  C10. When the event loop returns normally, the session identifier of the analysis is
  the \<^verbatim>\<open>sessionId\<close> of the last event, in line order, that carries the key: later
  occurrences overwrite earlier ones. If no event carries one it is \<open>unknown\<close>.
\<close>

theorem session_id_last:
  assumes "analyze_events lib events = Inr a"
  shows "session_id a =
           SessionId (if spec_session_ids events = [] then JStr ''unknown''
                      else last (spec_session_ids events))"
proof -
  from assms obtain acc where
    loop: "for_each (process_event events) events initial_containers = Inr acc" and
    sid: "session_id a = SessionId (c_session_id acc)"
    unfolding analyze_events_def by (auto simp: andthen_eq_Inr)
  from loop_session [OF loop] sid show ?thesis
    by (simp add: initial_containers_def)
qed

theorem session_id_last_witness:
  "map_sum id session_id (analyze_events no_timelib edit_session_events)
     = Inr (SessionId (JStr ''s2''))"
proof -
  have "case analyze_events no_timelib edit_session_events of Inl e \<Rightarrow> False | Inr a \<Rightarrow> True"
    by code_simp
  then obtain a where e: "analyze_events no_timelib edit_session_events = Inr a"
    by (cases "analyze_events no_timelib edit_session_events") auto
  have ids: "spec_session_ids edit_session_events = [JStr ''s1'', JStr ''s2'']"
    by code_simp
  show ?thesis
    using session_id_last [OF e] by (simp add: e ids)
qed

subsection \<open>User messages and the current context\<close>

lemma classify_event_messages:
  assumes "classify_event events acc ev ty = Inr acc'"
    and "\<forall>m\<in>set (c_user_messages acc). m \<noteq> []"
  shows "\<forall>m\<in>set (c_user_messages acc'). m \<noteq> []"
proof -
  have items: "\<And>items. for_each (process_item events) items acc = Inr acc'
      \<Longrightarrow> c_user_messages acc' = c_user_messages acc"
    by (rule for_each_invariant [where P = "\<lambda>s. c_user_messages s = c_user_messages acc" and f = "process_item events"])
       (auto dest: process_item_messages)
  from assms show ?thesis
    unfolding classify_event_def
    by (auto split: if_splits json.splits dest!: items)
qed

lemma process_event_messages:
  assumes "process_event events acc ev = Inr acc'"
    and "\<forall>m\<in>set (c_user_messages acc). m \<noteq> []"
  shows "\<forall>m\<in>set (c_user_messages acc'). m \<noteq> []"
proof (cases ev)
  case (JDict e)
  with assms(1) obtain acc2 where
    c: "classify_event events acc2 e (lookup e ''type'' (JStr [])) = Inr acc'" and
    m: "c_user_messages acc2 = c_user_messages acc"
    by (auto simp: Let_def split: if_splits)
  from classify_event_messages [OF c] m assms(2) show ?thesis by simp
qed (use assms in auto)

lemma loop_messages:
  assumes "for_each (process_event events) evs acc = Inr acc'"
    and "\<forall>m\<in>set (c_user_messages acc). m \<noteq> []"
  shows "\<forall>m\<in>set (c_user_messages acc'). m \<noteq> []"
  using assms
  by (rule for_each_invariant [where P = "\<lambda>s. \<forall>m\<in>set (c_user_messages s). m \<noteq> []", rotated 1])
     (rule process_event_messages)

lemma analyze_events_parts:
  assumes "analyze_events lib events = Inr a"
  shows "(\<forall>m\<in>set (user_messages a). m \<noteq> []) \<and>
         generate_current_context (user_messages a) (file_operations a) (bash_commands a)
           = Inr (current_context a)"
proof -
  from assms obtain acc accs ctx where
    loop: "for_each (process_event events) events initial_containers = Inr acc" and
    ctx: "generate_current_context (c_user_messages acc) (c_file_operations acc) (c_bash_commands acc) = Inr ctx" and
    a: "a = \<lparr> session_id = SessionId (c_session_id acc),
             duration_minutes = calculate_duration lib (c_timestamps acc),
             user_messages = c_user_messages acc,
             tool_events = c_tool_events acc,
             file_operations = c_file_operations acc,
             bash_commands = c_bash_commands acc,
             errors = c_errors acc,
             assistant_responses = c_assistant_responses acc,
             key_accomplishments = accs,
             current_context = ctx \<rparr>"
    unfolding analyze_events_def by (auto simp: andthen_eq_Inr)
  have "\<forall>m\<in>set (c_user_messages acc). m \<noteq> []"
    by (rule loop_messages [OF loop]) (simp add: initial_containers_def)
  with ctx a show ?thesis by simp
qed

lemma map_result_basename:
  "map_result (\<lambda>op. path_basename (file_path op)) ops = Inr names \<Longrightarrow>
   \<exists>paths. map file_path ops = map JStr paths \<and> names = map path_name paths"
proof (induction ops arbitrary: names)
  case Nil
  then show ?case by simp
next
  case (Cons op ops)
  from Cons.prems obtain n ns where
    n: "path_basename (file_path op) = Inr n" and
    ns: "map_result (\<lambda>op. path_basename (file_path op)) ops = Inr ns" and
    names: "names = n # ns"
    by (auto simp: andthen_eq_Inr)
  from n obtain p where p: "file_path op = JStr p" "n = path_name p"
    by (cases "file_path op") auto
  from Cons.IH [OF ns] obtain paths where
    "map file_path ops = map JStr paths" "ns = map path_name paths" by blast
  with p names have "map file_path (op # ops) = map JStr (p # paths) \<and> names = map path_name (p # paths)"
    by simp
  then show ?case by blast
qed

lemma last_n_nonempty: "xs \<noteq> [] \<Longrightarrow> last_n (Suc n) xs \<noteq> []"
  by (cases xs rule: rev_cases) (auto simp: last_n_def)

lemma last_n_spec: "last_n n xs = spec_last_up_to n xs"
  by (simp add: last_n_def spec_last_up_to_def take_rev)

lemma current_context_cases:
  assumes g: "generate_current_context msgs fops cmds = Inr ctx"
    and ne: "\<forall>m\<in>set msgs. m \<noteq> []"
  shows "(msgs = [] \<longrightarrow> ctx = ''Working on current task'') \<and>
         (msgs \<noteq> [] \<and> fops = [] \<longrightarrow> ctx = spec_clip50 (last msgs)) \<and>
         (msgs \<noteq> [] \<and> fops \<noteq> [] \<longrightarrow>
            (\<exists>paths. paths \<noteq> [] \<and> map file_path (last_n 3 fops) = map JStr paths \<and>
               ctx = spec_clip50 (last msgs) @ '' - working on '' @ join '', '' (map path_name paths)))"
proof (intro conjI impI)
  assume "msgs = []"
  with g show "ctx = ''Working on current task''"
    by (simp add: generate_current_context_def)
next
  assume a: "msgs \<noteq> [] \<and> fops = []"
  then have "last msgs \<noteq> []" using ne by simp
  with g a show "ctx = spec_clip50 (last msgs)"
    by (auto simp: generate_current_context_def spec_clip50_def Let_def)
next
  assume a: "msgs \<noteq> [] \<and> fops \<noteq> []"
  then have l: "last msgs \<noteq> []" using ne by simp
  from g a obtain names where
    names: "map_result (\<lambda>op. path_basename (file_path op)) (last_n 3 fops) = Inr names"
    by (auto simp: generate_current_context_def andthen_eq_Inr Let_def)
  from map_result_basename [OF names] obtain paths where
    paths: "map file_path (last_n 3 fops) = map JStr paths" "names = map path_name paths"
    by blast
  have "last_n 3 fops \<noteq> []"
    using a last_n_nonempty [of fops 2] by (simp add: numeral_3_eq_3)
  with paths have pne: "paths \<noteq> []" by auto
  from g a names paths pne l
  have "ctx = spec_clip50 (last msgs) @ '' - working on '' @ join '', '' (map path_name paths)"
    by (auto simp: generate_current_context_def spec_clip50_def Let_def)
  with paths pne
  show "\<exists>paths. paths \<noteq> [] \<and> map file_path (last_n 3 fops) = map JStr paths \<and>
               ctx = spec_clip50 (last msgs) @ '' - working on '' @ join '', '' (map path_name paths)"
    by blast
qed

text \<open>
  C7. For an analysis that the event loop produced: with no user messages the current
  context is the sentinel \<open>Working on current task\<close>; with user messages and no file
  operations it is the most recent user message, cut to 50 characters with an ellipsis if
  longer; with user messages and file operations it is that cut message, then \<open> - \<close>,
  then the clause \<open>working on\<close> naming the base filenames of the last up to 3 file
  operations, separated by commas.
\<close>

theorem current_context_rule:
  assumes "analyze_events lib events = Inr a"
  shows "(user_messages a = [] \<longrightarrow> current_context a = ''Working on current task'') \<and>
         (user_messages a \<noteq> [] \<and> file_operations a = [] \<longrightarrow>
            current_context a = spec_clip50 (last (user_messages a))) \<and>
         (user_messages a \<noteq> [] \<and> file_operations a \<noteq> [] \<longrightarrow>
            (\<exists>paths. paths \<noteq> [] \<and>
               map file_path (spec_last_up_to 3 (file_operations a)) = map JStr paths \<and>
               current_context a =
                 spec_clip50 (last (user_messages a)) @ '' - working on '' @
                 join '', '' (map path_name paths)))"
  using analyze_events_parts [OF assms]
  unfolding last_n_spec [symmetric]
  by (intro current_context_cases) auto

theorem current_context_rule_witness:
  "map_sum id
     (\<lambda>a. (length (user_messages a), length (last (user_messages a)),
           map file_path (file_operations a), current_context a))
     (analyze_events no_timelib busy_session_events)
   = Inr (1, 68,
          [JStr ''src/a.py'', JStr ''src/b.py'', JStr ''src/c.py'', JStr ''tests/d.py'',
           JStr ''tests/e.py''],
          ''Please refactor the parser module and add all the ... - working on c.py, d.py, e.py'')"
proof -
  have ok: "case analyze_events no_timelib busy_session_events of Inl e \<Rightarrow> False | Inr a \<Rightarrow> True"
    by code_simp
  then obtain a where e: "analyze_events no_timelib busy_session_events = Inr a"
    by (cases "analyze_events no_timelib busy_session_events") auto
  have m: "map_sum id user_messages (analyze_events no_timelib busy_session_events)
             = Inr [''Please refactor the parser module and add all the missing unit tests'']"
    by code_simp
  have f: "map_sum id (\<lambda>a. map file_path (file_operations a))
             (analyze_events no_timelib busy_session_events)
             = Inr [JStr ''src/a.py'', JStr ''src/b.py'', JStr ''src/c.py'', JStr ''tests/d.py'',
                    JStr ''tests/e.py'']"
    by code_simp
  from m e have um: "user_messages a
      = [''Please refactor the parser module and add all the missing unit tests'']"
    by simp
  from f e have fo: "map file_path (file_operations a)
      = [JStr ''src/a.py'', JStr ''src/b.py'', JStr ''src/c.py'', JStr ''tests/d.py'',
         JStr ''tests/e.py'']"
    by simp
  then have fne: "file_operations a \<noteq> []" by auto
  have l3: "map file_path (spec_last_up_to 3 (file_operations a))
      = [JStr ''src/c.py'', JStr ''tests/d.py'', JStr ''tests/e.py'']"
    unfolding spec_last_up_to_def
    by (simp add: rev_map [symmetric] take_map [symmetric] fo)
  from current_context_rule [OF e] um fne obtain paths where
    p: "map file_path (spec_last_up_to 3 (file_operations a)) = map JStr paths" and
    c: "current_context a =
          spec_clip50 (last (user_messages a)) @ '' - working on '' @
          join '', '' (map path_name paths)"
    by auto
  from p l3 have paths: "paths = [''src/c.py'', ''tests/d.py'', ''tests/e.py'']"
    by (auto simp: map_eq_Cons_conv)
  have n: "map path_name [''src/c.py'', ''tests/d.py'', ''tests/e.py''] = [''c.py'', ''d.py'', ''e.py'']"
    by code_simp
  have k: "spec_clip50 ''Please refactor the parser module and add all the missing unit tests''
             = ''Please refactor the parser module and add all the ...''"
    by code_simp
  from c um paths n k have "current_context a
      = ''Please refactor the parser module and add all the ... - working on c.py, d.py, e.py''"
    by simp
  with e um fo show ?thesis by simp
qed

subsection \<open>The notification never reaches the keyword topics\<close>

lemma unknown_context_not_composite:
  assumes "u \<noteq> []"
  shows "u @ '' - working on '' @ x \<noteq> ''Unknown context''"
proof
  assume eq: "u @ '' - working on '' @ x = ''Unknown context''"
  then have "length (u @ '' - working on '' @ x) = length ''Unknown context''" by simp
  then have "length u + length x = 1" by simp
  with assms have "length u = 1 \<and> x = []" by (cases u) auto
  then obtain c where "u = [c]" "x = []" by (cases u) auto
  with eq show False by simp
qed

lemma clip50_nonempty: "m \<noteq> [] \<Longrightarrow> spec_clip50 m \<noteq> []"
  by (auto simp: spec_clip50_def)

lemma clip50_unknown: "spec_clip50 m = ''Unknown context'' \<Longrightarrow> m = ''Unknown context''"
proof -
  assume a: "spec_clip50 m = ''Unknown context''"
  show ?thesis
  proof (cases "length m > 50")
    case True
    with a have "length (take 50 m @ ''...'') = length ''Unknown context''"
      by (simp add: spec_clip50_def)
    with True show ?thesis by simp
  next
    case False
    with a show ?thesis by (simp add: spec_clip50_def)
  qed
qed

lemma no_keyword_in_unknown_context:
  "\<not> list_ex (contains (lower ''Unknown context'')) [''database'', ''db'']"
  "\<not> list_ex (contains (lower ''Unknown context'')) [''test'', ''testing'']"
  "\<not> list_ex (contains (lower ''Unknown context'')) [''auth'', ''authentication'']"
  "\<not> list_ex (contains (lower ''Unknown context'')) [''api'', ''endpoint'']"
  by code_simp+

lemma notification_context_unknown:
  assumes "file_operations a = []" "user_messages a \<noteq> []"
    and "last (user_messages a) = ''Unknown context''"
  shows "generate_notification_context a = Inr []"
  unfolding generate_notification_context_def
  using assms no_keyword_in_unknown_context by (simp add: Let_def last_n_def)

lemma sentinel_contexts:
  assumes g: "generate_current_context msgs fops cmds = Inr ctx"
    and ne: "\<forall>m\<in>set msgs. m \<noteq> []"
  shows "ctx \<noteq> [] \<and> (ctx = ''Unknown context'' \<longrightarrow> fops = [] \<and> msgs \<noteq> [] \<and> last msgs = ''Unknown context'')"
proof (cases "msgs = []")
  case True
  with current_context_cases [OF g ne] show ?thesis by simp
next
  case False
  then have l: "spec_clip50 (last msgs) \<noteq> []" using ne by (simp add: clip50_nonempty)
  show ?thesis
  proof (cases "fops = []")
    case True
    with False current_context_cases [OF g ne] have "ctx = spec_clip50 (last msgs)" by simp
    with l True False show ?thesis by (auto dest: clip50_unknown)
  next
    case fne: False
    with False current_context_cases [OF g ne] obtain paths where
      "ctx = spec_clip50 (last msgs) @ '' - working on '' @ join '', '' (map path_name paths)"
      by auto
    with l unknown_context_not_composite [OF l] show ?thesis by auto
  qed
qed

lemma empty_analysis_shape:
  "current_context (empty_analysis i) = ''Unknown context'' \<and>
   generate_notification_context (empty_analysis i) = Inr []"
  by (simp add: empty_analysis_def generate_notification_context_def last_n_def)

lemma analysis_shape:
  fixes lib :: "'dt timelib"
  assumes "analyze_transcript lib src = Inr a"
  shows "current_context a \<noteq> [] \<and>
         (current_context a = ''Unknown context'' \<longrightarrow>
            generate_notification_context a = Inr [] \<and>
            ((\<exists>ident. a = empty_analysis ident) \<or>
             (file_operations a = [] \<and> user_messages a \<noteq> [] \<and>
              last (user_messages a) = ''Unknown context'')))"
proof -
  have "\<forall>e. src \<noteq> Inaccessible e"
    using assms by (auto simp: analyze_transcript_def)
  from analyze_transcript_returns [OF this, of lib] assms
  consider (empty) ident where "a = empty_analysis ident"
    | (events) events where "analyze_events lib events = Inr a"
    by auto
  then show ?thesis
  proof cases
    case empty
    with empty_analysis_shape [of ident] show ?thesis by auto
  next
    case events
    from analyze_events_parts [OF events]
    have p: "\<forall>m\<in>set (user_messages a). m \<noteq> []"
      "generate_current_context (user_messages a) (file_operations a) (bash_commands a)
           = Inr (current_context a)" by auto
    from sentinel_contexts [OF p(2) p(1)] notification_context_unknown [of a]
    show ?thesis by blast
  qed
qed

text \<open>
  C9 (as the code has it). With summaries enabled, for every analysis that
  \<open>analyze_transcript\<close> returns: when its current context differs from
  \<open>Unknown context\<close> the notification is the primary rendering
  \<open>Working on: <context>, needs your input\<close>; when the current context is
  \<open>Unknown context\<close> (an empty analysis, or an analysis whose last user message is
  exactly that text and which has no file operations) the secondary derivation returns
  the empty string and the fallback is used. The keyword topics are never rendered.
\<close>

theorem notification_never_keyword_topic:
  fixes lib :: "'dt timelib"
  assumes "is_summary_enabled amb" and "analyze_transcript lib src = Inr a"
  shows "(current_context a \<noteq> ''Unknown context'' \<longrightarrow>
            generate_notification_summary amb a =
              truncate_for_tts
                (name_prefix amb @ ''Working on: '' @ current_context a @ '', needs your input'')) \<and>
         (current_context a = ''Unknown context'' \<longrightarrow>
            generate_notification_context a = Inr [] \<and>
            generate_notification_summary amb a =
              name_prefix amb @ random_choice amb fallback_notification_messages \<and>
            ((\<exists>ident. a = empty_analysis ident) \<or>
             (file_operations a = [] \<and> user_messages a \<noteq> [] \<and>
              last (user_messages a) = ''Unknown context'')))"
  using analysis_shape [OF assms(2)] assms(1)
  by (auto simp: generate_notification_summary_def Let_def)

theorem notification_never_keyword_topic_witness:
  "map_sum id (generate_notification_summary default_ambient)
     (analyze_transcript no_timelib (Content (map Parsed edit_session_events)))
   = Inr ''Working on: Please fix the bug - working on a.py, b.py, needs your input''"
proof -
  have 1: "is_summary_enabled default_ambient"
    by code_simp
  have ok: "case analyze_transcript no_timelib (Content (map Parsed edit_session_events)) of
              Inl e \<Rightarrow> False | Inr a \<Rightarrow> True"
    by code_simp
  then obtain a where
    e: "analyze_transcript no_timelib (Content (map Parsed edit_session_events)) = Inr a"
    by (cases "analyze_transcript no_timelib (Content (map Parsed edit_session_events))") auto
  have "map_sum id current_context
          (analyze_transcript no_timelib (Content (map Parsed edit_session_events)))
             = Inr ''Please fix the bug - working on a.py, b.py''"
    by code_simp
  with e have 2: "current_context a = ''Please fix the bug - working on a.py, b.py''"
    by simp
  have 3: "name_prefix default_ambient = []"
    by code_simp
  have 4: "truncate_for_tts ''Working on: Please fix the bug - working on a.py, b.py, needs your input''
             = ''Working on: Please fix the bug - working on a.py, b.py, needs your input''"
    by code_simp
  show ?thesis
    using notification_never_keyword_topic [OF 1 e] by (simp add: e 2 3 4)
qed

text \<open>
  C9 as stated fails in its reason: an analysis that is not empty can have the current
  context \<open>Unknown context\<close>. The user message \<open>Unknown context\<close> gives one, and
  the notification is then the fallback, not the primary rendering.
\<close>

theorem notification_unknown_context_counterexample:
  "map_sum id
     (\<lambda>a. (user_messages a, current_context a, generate_notification_summary default_ambient a))
     (analyze_transcript no_timelib (Content unknown_context_transcript))
   = Inr ([''Unknown context''], ''Unknown context'', ''Your agent needs your input'')"
  by code_simp

end
